theory Spec2Isabelle
  imports Main "HOL-Library.Word" "HOL-Library.Multiset"
begin

section \<open>JavaScript strings\<close>

text \<open>
  A JavaScript string is a sequence of 16-bit code units. String literals of the
  source are plain ASCII and are written with \<open>js\<close>.
\<close>

type_synonym jschar = "16 word"
type_synonym jsstring = "jschar list"

definition js :: "string \<Rightarrow> jsstring" where
  "js s = map (\<lambda>c. of_nat (of_char c)) s"

text \<open>
  The class \<open>\s\<close> of a regular expression, which is also what \<open>trim\<close> strips:
  TAB, LF, VT, FF, CR, space, NBSP, U+1680, U+2000..U+200A, U+2028, U+2029, U+202F,
  U+205F, U+3000 and U+FEFF.
\<close>

definition is_ws :: "jschar \<Rightarrow> bool" where
  "is_ws c = (c = 0x9 \<or> c = 0xA \<or> c = 0xB \<or> c = 0xC \<or> c = 0xD \<or> c = 0x20 \<or> c = 0xA0
      \<or> c = 0x1680 \<or> (0x2000 \<le> c \<and> c \<le> 0x200A) \<or> c = 0x2028 \<or> c = 0x2029
      \<or> c = 0x202F \<or> c = 0x205F \<or> c = 0x3000 \<or> c = 0xFEFF)"

text \<open>
  Canonicalisation of a code unit under the \<open>i\<close> flag (without the \<open>u\<close> flag): the
  upper-case form. Every pattern of the source is ASCII, and a code unit outside ASCII
  never canonicalises to an ASCII one, so only the ASCII letters are folded here.
\<close>

definition canon :: "jschar \<Rightarrow> jschar" where
  "canon c = (if 0x61 \<le> c \<and> c \<le> 0x7A then c - 0x20 else c)"

definition same_char :: "bool \<Rightarrow> jschar \<Rightarrow> jschar \<Rightarrow> bool" where
  "same_char ignore_case p c = (if ignore_case then canon p = canon c else p = c)"

section \<open>The regular expressions of the source\<close>

text \<open>
  The patterns of \<open>NETWORK_ERROR_PATTERNS\<close> and of \<open>isValidYouTubeUrl\<close> are built from
  literal text, sequencing and the optional group \<open>(?:...)?\<close>. \<open>rx_match\<close> lists, in
  backtracking order, what is left of the input after each way of matching a prefix of
  it; \<open>rx_test\<close> is \<open>RegExp.prototype.test\<close> for a pattern without the \<open>g\<close> flag: a
  match starting at some position.
\<close>

datatype rx = Lit jsstring | Opt rx | Seq rx rx

fun lit_match :: "bool \<Rightarrow> jsstring \<Rightarrow> jsstring \<Rightarrow> jsstring list" where
  "lit_match ic [] s = [s]"
| "lit_match ic (p # ps) [] = []"
| "lit_match ic (p # ps) (c # cs) = (if same_char ic p c then lit_match ic ps cs else [])"

fun rx_match :: "bool \<Rightarrow> rx \<Rightarrow> jsstring \<Rightarrow> jsstring list" where
  "rx_match ic (Lit l) s = lit_match ic l s"
| "rx_match ic (Opt r) s = rx_match ic r s @ [s]"
| "rx_match ic (Seq a b) s = concat (map (rx_match ic b) (rx_match ic a s))"

fun rx_test :: "bool \<Rightarrow> rx \<Rightarrow> jsstring \<Rightarrow> bool" where
  "rx_test ic r [] = (rx_match ic r [] \<noteq> [])"
| "rx_test ic r (c # cs) = (rx_match ic r (c # cs) \<noteq> [] \<or> rx_test ic r cs)"

section \<open>utils/validator\<close>

text \<open>The optional scheme \<open>(?:https?:)?\<close> that starts every URL pattern.\<close>

definition scheme_opt :: rx where
  "scheme_opt = Opt (Seq (Lit (js ''http'')) (Seq (Opt (Lit (js ''s''))) (Lit (js '':''))))"

definition youtubePatterns :: "rx list" where
  "youtubePatterns =
    [Seq scheme_opt (Seq (Lit (js ''//'')) (Seq (Opt (Lit (js ''www.''))) (Lit (js ''youtube.com/playlist?list='')))),
     Seq scheme_opt (Seq (Lit (js ''//'')) (Seq (Opt (Lit (js ''www.''))) (Lit (js ''youtube.com/watch?v='')))),
     Seq scheme_opt (Seq (Lit (js ''//'')) (Lit (js ''music.youtube.com/playlist?list=''))),
     Seq scheme_opt (Seq (Lit (js ''//'')) (Lit (js ''music.youtube.com/browse/''))),
     Seq scheme_opt (Seq (Lit (js ''//'')) (Lit (js ''youtu.be/'')))]"

definition isValidYouTubeUrl :: "jsstring \<Rightarrow> bool" where
  "isValidYouTubeUrl url = list_ex (\<lambda>pattern. rx_test True pattern url) youtubePatterns"

text \<open>The class \<open>[a-zA-Z0-9_-]\<close>.\<close>

definition is_id_char :: "jschar \<Rightarrow> bool" where
  "is_id_char c = ((0x61 \<le> c \<and> c \<le> 0x7A) \<or> (0x41 \<le> c \<and> c \<le> 0x5A)
      \<or> (0x30 \<le> c \<and> c \<le> 0x39) \<or> c = 0x5F \<or> c = 0x2D)"

text \<open>
  \<open>/[?&]list=([a-zA-Z0-9_-]+)/\<close> tried at the start of the input: \<open>?\<close> or \<open>&\<close>, then
  \<open>list=\<close> (case-sensitive), then at least one character of the class. The result is
  the group, the longest run of the class there.
\<close>

fun list_param_at :: "jsstring \<Rightarrow> jsstring option" where
  "list_param_at [] = None"
| "list_param_at (c # cs) =
     (if c = 0x3F \<or> c = 0x26 then
        (if take 5 cs = js ''list='' then
           (case takeWhile is_id_char (drop 5 cs) of [] \<Rightarrow> None | g # gs \<Rightarrow> Some (g # gs))
         else None)
      else None)"

text \<open>
  \<open>url.match(...)?.[1] ?? null\<close>: the group of the leftmost match, or \<open>null\<close> when the
  pattern matches nowhere.
\<close>

fun extractPlaylistId :: "jsstring \<Rightarrow> jsstring option" where
  "extractPlaylistId [] = None"
| "extractPlaylistId (c # cs) =
     (case list_param_at (c # cs) of
        Some playlistId \<Rightarrow> Some playlistId
      | None \<Rightarrow> extractPlaylistId cs)"

text \<open>
  The characters of \<open>/[\/\\?%*:|"<>]/\<close>: slash, backslash, question mark, percent,
  star, colon, bar, double quote, less-than, greater-than.
\<close>

definition illegal_chars :: "jschar list" where
  "illegal_chars = [0x2F, 0x5C, 0x3F, 0x25, 0x2A, 0x3A, 0x7C, 0x22, 0x3C, 0x3E]"

text \<open>\<open>replace(/\s+/g, ' ')\<close>: every maximal run of whitespace becomes one space.\<close>

function collapse_ws :: "jsstring \<Rightarrow> jsstring" where
  "collapse_ws [] = []"
| "collapse_ws (c # cs) =
     (if is_ws c then 0x20 # collapse_ws (dropWhile is_ws cs) else c # collapse_ws cs)"
  by pat_completeness auto
termination
  by (relation "measure length") (auto simp: length_dropWhile_le less_Suc_eq_le)

definition trim :: "jsstring \<Rightarrow> jsstring" where
  "trim s = rev (dropWhile is_ws (rev (dropWhile is_ws s)))"

definition sanitizeFilename :: "jsstring \<Rightarrow> jsstring" where
  "sanitizeFilename fileName =
     take 200 (trim (collapse_ws (filter (\<lambda>c. c \<notin> set illegal_chars) fileName)))"

text \<open>Two adjacent whitespace code units somewhere in the string.\<close>

fun has_ws_run :: "jsstring \<Rightarrow> bool" where
  "has_ws_run (a # b # cs) = ((is_ws a \<and> is_ws b) \<or> has_ws_run (b # cs))"
| "has_ws_run _ = False"

section \<open>services/youtube/fetcher: validateAndExtractId\<close>

text \<open>A thrown JavaScript value: an \<open>Error\<close> object with its message, or anything else.\<close>

datatype thrown = ErrorObj jsstring | OtherValue

definition validateAndExtractId :: "jsstring \<Rightarrow> thrown + jsstring" where
  "validateAndExtractId url =
     (if \<not> isValidYouTubeUrl url then Inl (ErrorObj (js ''Invalid YouTube URL: '' @ url))
      else case extractPlaylistId url of
             None \<Rightarrow> Inl (ErrorObj (js ''Could not extract playlist ID from URL: '' @ url))
           | Some playlistId \<Rightarrow> Inr playlistId)"

section \<open>types\<close>

text \<open>
  The interfaces \<open>Song\<close> and \<open>DownloadProgress\<close>. The fields \<open>id\<close> and \<open>title\<close> of a
  song are \<open>song_id\<close> and \<open>song_title\<close> here, and the \<open>error\<close> field of a progress
  event is \<open>progress_error\<close>.
\<close>

record Song =
  song_id :: jsstring
  song_title :: jsstring
  artist :: jsstring
  duration :: nat
  coverUrl :: "jsstring option"
  downloadUrl :: "jsstring option"

datatype status = Pending | Downloading | Converting | Completed | Failed

record DownloadProgress =
  songId :: jsstring
  title :: jsstring
  status :: status
  progress :: nat
  progress_error :: "jsstring option"

section \<open>services/downloader\<close>

definition NETWORK_ERROR_PATTERNS :: "rx list" where
  "NETWORK_ERROR_PATTERNS =
    [Lit (js ''ENOTFOUND''), Lit (js ''EAI_AGAIN''), Lit (js ''ECONNRESET''), Lit (js ''ETIMEDOUT''),
     Lit (js ''network is unreachable''), Lit (js ''getaddrinfo ENOTFOUND''),
     Lit (js ''Temporary failure in name resolution''), Lit (js ''Resolving timed out'')]"

definition isNetworkError :: "jsstring \<Rightarrow> bool" where
  "isNetworkError message = list_ex (\<lambda>pattern. rx_test True pattern message) NETWORK_ERROR_PATTERNS"

record DownloadOptions =
  outputDir :: jsstring
  concurrency :: "int option"
  quality :: "jsstring option"
  cookiesFile :: "jsstring option"
  onProgress :: bool

record DownloadResult =
  song :: Song
  filePath :: jsstring
  success :: bool
  error :: "jsstring option"

subsection \<open>What a job does to the outside world\<close>

text \<open>
  The log prefix of \<open>waitForReconnect\<close> is the empty string or \<open>(attempt/maxRetries) \<close>;
  the four console messages of the module are told apart by a constructor.
\<close>

datatype log_prefix = NoPrefix | AttemptPrefix nat nat

datatype console_msg =
    Reconnected log_prefix
  | NoInternet log_prefix
  | StillOffline log_prefix
  | NetworkIssue log_prefix

text \<open>
  The calls a job makes, in the order it makes them: a connectivity probe with its answer,
  a console message, a delay in milliseconds, a call of the progress handler, a run of the
  fetch tool (song id, cookies file, temporary path), the removal of the temporary file,
  a run of the transcoder (input, output), and \<open>logger.error\<close> (title, message).
\<close>

datatype action =
    IsOnline bool
  | ConsoleLog console_msg
  | Delay nat
  | OnProgress DownloadProgress
  | ExecSync jsstring "jsstring option" jsstring
  | UnlinkSync jsstring
  | Ffmpeg jsstring jsstring
  | LoggerError jsstring jsstring

datatype fetch_outcome = FetchOk | FetchThrows thrown

datatype transcode_outcome = TranscodeEnd | TranscodeError thrown

text \<open>
  The behaviour of the outside world towards one job: the answers of its successive
  connectivity probes, the outcome of each run of the fetch tool (by attempt number),
  whether the temporary file is there after that run, the outcome of the transcoder, and
  whether the temporary file is there when the job starts. The probe script is finite:
  a job that is still polling when the script ends never settles.
  The progress handler is taken to return normally, and so are the file system calls
  in \<open>downloadSong\<close>; \<open>downloadSong_fs\<close> is the function with an \<open>unlinkSync\<close> that may
  throw.
\<close>

record job_env =
  online_script :: "bool list"
  fetch_outcome_at :: "nat \<Rightarrow> fetch_outcome"
  temp_left_at :: "nat \<Rightarrow> bool"
  transcode_outcome :: transcode_outcome
  temp_present :: bool

record job_state =
  probes :: "bool list"
  temp_exists :: bool

text \<open>How an asynchronous function ends.\<close>

datatype 'a promise = Resolved 'a | Rejected thrown | Unsettled

subsection \<open>waitForReconnect\<close>

text \<open>
  The polling loop over the remaining probe answers. The result says whether the call
  returned, which answers are left, and what the call did.
\<close>

fun waitForReconnect_loop :: "log_prefix \<Rightarrow> bool \<Rightarrow> bool list \<Rightarrow> bool \<times> bool list \<times> action list" where
  "waitForReconnect_loop logPrefix announced [] = (False, [], [])"
| "waitForReconnect_loop logPrefix announced (online # rest) =
     (if online
      then (True, rest,
            IsOnline True # (if announced then [ConsoleLog (Reconnected logPrefix)] else []))
      else (case waitForReconnect_loop logPrefix True rest of
              (returned, rest', acts) \<Rightarrow>
                (returned, rest',
                 IsOnline False
                 # ConsoleLog (if \<not> announced then NoInternet logPrefix else StillOffline logPrefix)
                 # Delay 5000 # acts)))"

definition waitForReconnect :: "log_prefix \<Rightarrow> job_state \<Rightarrow> bool \<times> job_state \<times> action list" where
  "waitForReconnect logPrefix st =
     (case waitForReconnect_loop logPrefix False (probes st) of
        (returned, rest, acts) \<Rightarrow> (returned, st\<lparr>probes := rest\<rparr>, acts))"

subsection \<open>downloadSong\<close>

definition maxRetries :: nat where
  "maxRetries = 4"

text \<open>\<open>error instanceof Error ? error.message : 'Unknown error'\<close>\<close>

definition message_of :: "thrown \<Rightarrow> jsstring" where
  "message_of e = (case e of ErrorObj m \<Rightarrow> m | OtherValue \<Rightarrow> js ''Unknown error'')"

text \<open>\<open>onProgress?.(p)\<close>: a call when a handler was passed.\<close>

definition call_onProgress :: "bool \<Rightarrow> DownloadProgress \<Rightarrow> action list" where
  "call_onProgress handler p = (if handler then [OnProgress p] else [])"

text \<open>
  \<open>if (fs.existsSync(tempAudioPath)) fs.unlinkSync(tempAudioPath)\<close>, with a removal that
  succeeds. \<open>cleanup_temp_fs\<close> below is the same call with a removal that may throw.
\<close>

definition cleanup_temp :: "jsstring \<Rightarrow> job_state \<Rightarrow> job_state \<times> action list" where
  "cleanup_temp tempAudioPath st =
     (if temp_exists st then (st\<lparr>temp_exists := False\<rparr>, [UnlinkSync tempAudioPath]) else (st, []))"

text \<open>
  \<open>path.join\<close> of a directory and a file name that holds no separator. The normalisation
  that Node applies to the directory part is left out.
\<close>

definition path_join :: "jsstring \<Rightarrow> jsstring \<Rightarrow> jsstring" where
  "path_join dir file = (if dir = [] then file else dir @ js ''/'' @ file)"

text \<open>
  The retry loop \<open>for (attempt = 1; attempt <= maxRetries; attempt++)\<close>, from the given
  attempt on. It ends by \<open>break\<close> or by running out (\<open>Resolved\<close>), by \<open>throw error\<close>
  (\<open>Rejected\<close>), or never, inside a connectivity wait (\<open>Unsettled\<close>).
\<close>

function fetch_loop ::
  "job_env \<Rightarrow> Song \<Rightarrow> jsstring option \<Rightarrow> bool \<Rightarrow> jsstring \<Rightarrow> nat \<Rightarrow> job_state
     \<Rightarrow> unit promise \<times> job_state \<times> action list" where
  "fetch_loop env sng cookies handler tempAudioPath attempt st =
     (if attempt \<le> maxRetries then
        (case waitForReconnect NoPrefix st of
           (False, st1, a1) \<Rightarrow> (Unsettled, st1, a1)
         | (True, st1, a1) \<Rightarrow>
            (let a2 = call_onProgress handler
                        \<lparr>songId = song_id sng, title = song_title sng, status = Downloading,
                         progress = 0, progress_error = None\<rparr>;
                 a3 = [ExecSync (song_id sng)
                         (case cookies of None \<Rightarrow> None | Some f \<Rightarrow> if f = [] then None else Some f)
                         tempAudioPath];
                 st2 = st1\<lparr>temp_exists := temp_left_at env attempt\<rparr>
             in case fetch_outcome_at env attempt of
                  FetchOk \<Rightarrow> (Resolved (), st2, a1 @ a2 @ a3)
                | FetchThrows err \<Rightarrow>
                   (let message = message_of err in
                    case cleanup_temp tempAudioPath st2 of (st3, a4) \<Rightarrow>
                      if isNetworkError message \<and> attempt < maxRetries then
                        (let prefix = AttemptPrefix attempt maxRetries;
                             a5 = [ConsoleLog (NetworkIssue prefix)]
                         in case waitForReconnect prefix st3 of
                              (False, st4, a6) \<Rightarrow> (Unsettled, st4, a1 @ a2 @ a3 @ a4 @ a5 @ a6)
                            | (True, st4, a6) \<Rightarrow>
                               (case fetch_loop env sng cookies handler tempAudioPath (attempt + 1) st4 of
                                  (r, st5, a7) \<Rightarrow> (r, st5, a1 @ a2 @ a3 @ a4 @ a5 @ a6 @ a7)))
                      else (Rejected err, st3, a1 @ a2 @ a3 @ a4))))
      else (Resolved (), st, []))"
  by pat_completeness auto
termination
  by (relation "measure (\<lambda>(env, sng, cookies, handler, tempAudioPath, attempt, st). Suc maxRetries - attempt)")
     auto

text \<open>The body of the \<open>try\<close> block: the retry loop, then the conversion to MP3.\<close>

definition downloadSong_try ::
  "job_env \<Rightarrow> Song \<Rightarrow> jsstring \<Rightarrow> jsstring option \<Rightarrow> bool \<Rightarrow> jsstring \<Rightarrow> jsstring \<Rightarrow> job_state
     \<Rightarrow> DownloadResult promise \<times> job_state \<times> action list" where
  "downloadSong_try env sng dir cookies handler outputPath tempAudioPath st =
     (case fetch_loop env sng cookies handler tempAudioPath 1 st of
        (Unsettled, st1, a1) \<Rightarrow> (Unsettled, st1, a1)
      | (Rejected err, st1, a1) \<Rightarrow> (Rejected err, st1, a1)
      | (Resolved u, st1, a1) \<Rightarrow>
         (let a2 = call_onProgress handler
                     \<lparr>songId = song_id sng, title = song_title sng, status = Converting,
                      progress = 50, progress_error = None\<rparr>;
              a3 = [Ffmpeg tempAudioPath outputPath]
          in case transcode_outcome env of
               TranscodeEnd \<Rightarrow>
                 (case cleanup_temp tempAudioPath st1 of (st2, a4) \<Rightarrow>
                    (let a5 = call_onProgress handler
                                \<lparr>songId = song_id sng, title = song_title sng, status = Completed,
                                 progress = 100, progress_error = None\<rparr>
                     in (Resolved \<lparr>song = sng, filePath = outputPath, success = True, error = None\<rparr>,
                         st2, a1 @ a2 @ a3 @ a4 @ a5)))
             | TranscodeError err \<Rightarrow> (Rejected err, st1, a1 @ a2 @ a3)))"

text \<open>
  \<open>downloadSong\<close>: the \<open>try\<close> block and its \<open>catch\<close>. The result holds how the call
  ended, the final state and everything the job did.
\<close>

definition downloadSong ::
  "Song \<Rightarrow> jsstring \<Rightarrow> jsstring option \<Rightarrow> bool \<Rightarrow> job_env
     \<Rightarrow> DownloadResult promise \<times> job_state \<times> action list" where
  "downloadSong sng dir cookies handler env =
     (let sanitizedTitle = sanitizeFilename (artist sng @ js '' - '' @ song_title sng);
          outputPath = path_join dir (sanitizedTitle @ js ''.mp3'');
          tempAudioPath = path_join dir (sanitizedTitle @ js ''.webm'');
          st = \<lparr>probes = online_script env, temp_exists = temp_present env\<rparr>
      in case downloadSong_try env sng dir cookies handler outputPath tempAudioPath st of
           (Rejected err, st1, a1) \<Rightarrow>
             (let errorMessage = message_of err in
              case cleanup_temp tempAudioPath st1 of (st2, a2) \<Rightarrow>
                (let a3 = call_onProgress handler
                            \<lparr>songId = song_id sng, title = song_title sng, status = Failed,
                             progress = 0, progress_error = Some errorMessage\<rparr>;
                     a4 = [LoggerError (song_title sng) errorMessage]
                 in (Resolved \<lparr>song = sng, filePath = [], success = False, error = Some errorMessage\<rparr>,
                     st2, a1 @ a2 @ a3 @ a4)))
         | other \<Rightarrow> other)"

subsection \<open>downloadSongs\<close>

text \<open>
  The outside world of a batch: whether the output directory exists, what \<open>mkdirSync\<close>
  does if it does not, the world of the job of each item (by position in the batch), and
  the instant at which that job settles. Jobs that settle at the same instant are taken
  in batch order.
\<close>

record batch_env =
  dir_exists :: bool
  mkdir_outcome :: "thrown option"
  env_of_job :: "nat \<Rightarrow> job_env"
  finish_time :: "nat \<Rightarrow> nat"

text \<open>
  \<open>results\<close> after \<open>Promise.all\<close>: every queued task pushes its result when its job
  settles, so the array is in completion order. A task that rejects makes
  \<open>Promise.all\<close> reject; a task that never settles keeps it pending.
\<close>

fun settle_all :: "DownloadResult promise list \<Rightarrow> DownloadResult list \<Rightarrow> DownloadResult list promise" where
  "settle_all [] results = Resolved results"
| "settle_all (Resolved r # ps) results = settle_all ps (results @ [r])"
| "settle_all (Rejected e # ps) results = Rejected e"
| "settle_all (Unsettled # ps) results =
     (case settle_all ps results of Rejected e \<Rightarrow> Rejected e | _ \<Rightarrow> Unsettled)"

text \<open>
  \<open>downloadSongs\<close>. The queue is the p-queue library: its constructor throws a
  \<open>TypeError\<close> for a concurrency below 1, and it runs every added task once. How the
  tasks interleave shows here only as the order in which they settle.
\<close>

definition downloadSongs :: "Song list \<Rightarrow> DownloadOptions \<Rightarrow> batch_env \<Rightarrow> DownloadResult list promise" where
  "downloadSongs songs options env =
     (let c = (case concurrency options of None \<Rightarrow> 5 | Some n \<Rightarrow> n) in
      case (if dir_exists env then None else mkdir_outcome env) of
        Some e \<Rightarrow> Rejected e
      | None \<Rightarrow>
          if c < 1 then Rejected (ErrorObj (js ''Expected concurrency to be a number from 1 and up''))
          else
            (let jobs = map (\<lambda>i. fst (downloadSong (songs ! i) (outputDir options) (cookiesFile options)
                                          (onProgress options) (env_of_job env i)))
                          [0 ..< length songs];
                 order = sort_key (finish_time env) [0 ..< length songs]
             in settle_all (map (\<lambda>i. jobs ! i) order) []))"

subsection \<open>Observations on what a job did\<close>

definition fetch_attempts :: "action list \<Rightarrow> nat" where
  "fetch_attempts acts = length (filter (\<lambda>a. case a of ExecSync i c t \<Rightarrow> True | _ \<Rightarrow> False) acts)"

definition progress_events :: "action list \<Rightarrow> DownloadProgress list" where
  "progress_events acts = concat (map (\<lambda>a. case a of OnProgress p \<Rightarrow> [p] | _ \<Rightarrow> []) acts)"

definition console_msgs :: "action list \<Rightarrow> console_msg list" where
  "console_msgs acts = concat (map (\<lambda>a. case a of ConsoleLog m \<Rightarrow> [m] | _ \<Rightarrow> []) acts)"

definition failed_probes :: "action list \<Rightarrow> nat" where
  "failed_probes acts = length (filter (\<lambda>a. a = IsOnline False) acts)"

text \<open>
  Reading what a job did from left to right: \<open>Some b\<close> while every run of the fetch tool
  so far came after a connectivity probe that answered yes, with no other probe and no
  other run of the tool in between; \<open>b\<close> says whether the tool may run now.
\<close>

fun guard_step :: "bool option \<Rightarrow> action \<Rightarrow> bool option" where
  "guard_step None a = None"
| "guard_step (Some b) (IsOnline r) = Some r"
| "guard_step (Some b) (ExecSync i c t) = (if b then Some False else None)"
| "guard_step (Some b) a = Some b"

definition fetch_guarded :: "action list \<Rightarrow> bool" where
  "fetch_guarded acts = (foldl guard_step (Some False) acts \<noteq> None)"

text \<open>
  The steps of a job that matter for its progress display, in order: a progress event
  with its status and indicator, a run of the fetch tool, a run of the transcoder.
\<close>

datatype milestone = Event status nat | FetchStart | TranscodeStart

definition milestones :: "action list \<Rightarrow> milestone list" where
  "milestones acts =
     concat (map (\<lambda>a. case a of
                        OnProgress p \<Rightarrow> [Event (status p) (progress p)]
                      | ExecSync i c t \<Rightarrow> [FetchStart]
                      | Ffmpeg i out \<Rightarrow> [TranscodeStart]
                      | _ \<Rightarrow> []) acts)"

definition transcode_started :: "action list \<Rightarrow> bool" where
  "transcode_started acts = list_ex (\<lambda>a. case a of Ffmpeg i out \<Rightarrow> True | _ \<Rightarrow> False) acts"

subsection \<open>Names for parts of a run\<close>

text \<open>
  The successful probe answers a job has left, the two calls that start a fetch attempt,
  an attempt that fails with a network error, the two paths and the initial state of
  \<open>downloadSong\<close>, and what its \<open>catch\<close> block and its conversion step do.
\<close>

definition online_left :: "job_state \<Rightarrow> nat" where
  "online_left st = count_list (probes st) True"

definition attempt_acts :: "bool \<Rightarrow> Song \<Rightarrow> jsstring option \<Rightarrow> jsstring \<Rightarrow> action list" where
  "attempt_acts h sng ck t =
     call_onProgress h \<lparr>songId = song_id sng, title = song_title sng, status = Downloading,
                        progress = 0, progress_error = None\<rparr>
     @ [ExecSync (song_id sng) (case ck of None \<Rightarrow> None | Some f \<Rightarrow> if f = [] then None else Some f) t]"


definition temp_path :: "jsstring \<Rightarrow> Song \<Rightarrow> jsstring" where
  "temp_path dir sng =
     path_join dir (sanitizeFilename (artist sng @ js '' - '' @ song_title sng) @ js ''.webm'')"

definition output_path :: "jsstring \<Rightarrow> Song \<Rightarrow> jsstring" where
  "output_path dir sng =
     path_join dir (sanitizeFilename (artist sng @ js '' - '' @ song_title sng) @ js ''.mp3'')"

definition start_state :: "job_env \<Rightarrow> job_state" where
  "start_state env = \<lparr>probes = online_script env, temp_exists = temp_present env\<rparr>"

definition failure_result :: "Song \<Rightarrow> thrown \<Rightarrow> DownloadResult" where
  "failure_result sng e = \<lparr>song = sng, filePath = [], success = False, error = Some (message_of e)\<rparr>"

definition failure_acts :: "bool \<Rightarrow> Song \<Rightarrow> thrown \<Rightarrow> action list" where
  "failure_acts h sng e =
     call_onProgress h \<lparr>songId = song_id sng, title = song_title sng, status = Failed,
                        progress = 0, progress_error = Some (message_of e)\<rparr>
     @ [LoggerError (song_title sng) (message_of e)]"

definition converting_acts :: "bool \<Rightarrow> Song \<Rightarrow> jsstring \<Rightarrow> action list" where
  "converting_acts h sng dir =
     call_onProgress h \<lparr>songId = song_id sng, title = song_title sng, status = Converting,
                        progress = 50, progress_error = None\<rparr>
     @ [Ffmpeg (temp_path dir sng) (output_path dir sng)]"

definition completed_acts :: "bool \<Rightarrow> Song \<Rightarrow> action list" where
  "completed_acts h sng =
     call_onProgress h \<lparr>songId = song_id sng, title = song_title sng, status = Completed,
                        progress = 100, progress_error = None\<rparr>"

text \<open>The milestones of one fetch attempt, and the indicators of the progress events among milestones.\<close>

definition attempt_steps :: "bool \<Rightarrow> milestone list" where
  "attempt_steps h = (if h then [Event Downloading 0, FetchStart] else [FetchStart])"

definition indicators :: "milestone list \<Rightarrow> nat list" where
  "indicators ms = concat (map (\<lambda>m. case m of Event s n \<Rightarrow> [n] | _ \<Rightarrow> []) ms)"

subsection \<open>downloadSong when the removal of the temporary file may throw\<close>

text \<open>
  \<open>fs.unlinkSync\<close> is called in three places: in the \<open>catch\<close> of the retry loop, in the
  \<open>end\<close> listener of the transcoder and in the outer \<open>catch\<close>. What it does there, for
  the attempt at hand: \<open>None\<close> when the file is removed, the error it throws otherwise.
\<close>

record fs_env =
  unlink_in_retry :: "nat \<Rightarrow> thrown option"
  unlink_on_end :: "thrown option"
  unlink_in_catch :: "thrown option"

text \<open>
  \<open>if (fs.existsSync(tempAudioPath)) fs.unlinkSync(tempAudioPath)\<close>: the error thrown,
  if any; a file that could not be removed is still there.
\<close>

definition cleanup_temp_fs ::
  "thrown option \<Rightarrow> jsstring \<Rightarrow> job_state \<Rightarrow> thrown option \<times> job_state \<times> action list" where
  "cleanup_temp_fs outcome tempAudioPath st =
     (if temp_exists st then
        (case outcome of
           None \<Rightarrow> (None, st\<lparr>temp_exists := False\<rparr>, [UnlinkSync tempAudioPath])
         | Some e \<Rightarrow> (Some e, st, [UnlinkSync tempAudioPath]))
      else (None, st, []))"

text \<open>
  The retry loop again. An error of \<open>unlinkSync\<close> in the \<open>catch\<close> of an attempt leaves
  the loop at once, in place of the error of the fetch tool, and nothing is retried.
\<close>

function fetch_loop_fs ::
  "fs_env \<Rightarrow> job_env \<Rightarrow> Song \<Rightarrow> jsstring option \<Rightarrow> bool \<Rightarrow> jsstring \<Rightarrow> nat \<Rightarrow> job_state
     \<Rightarrow> unit promise \<times> job_state \<times> action list" where
  "fetch_loop_fs fs env sng cookies handler tempAudioPath attempt st =
     (if attempt \<le> maxRetries then
        (case waitForReconnect NoPrefix st of
           (False, st1, a1) \<Rightarrow> (Unsettled, st1, a1)
         | (True, st1, a1) \<Rightarrow>
            (let a2 = call_onProgress handler
                        \<lparr>songId = song_id sng, title = song_title sng, status = Downloading,
                         progress = 0, progress_error = None\<rparr>;
                 a3 = [ExecSync (song_id sng)
                         (case cookies of None \<Rightarrow> None | Some f \<Rightarrow> if f = [] then None else Some f)
                         tempAudioPath];
                 st2 = st1\<lparr>temp_exists := temp_left_at env attempt\<rparr>
             in case fetch_outcome_at env attempt of
                  FetchOk \<Rightarrow> (Resolved (), st2, a1 @ a2 @ a3)
                | FetchThrows err \<Rightarrow>
                   (let message = message_of err in
                    case cleanup_temp_fs (unlink_in_retry fs attempt) tempAudioPath st2 of
                      (Some unlinkError, st3, a4) \<Rightarrow> (Rejected unlinkError, st3, a1 @ a2 @ a3 @ a4)
                    | (None, st3, a4) \<Rightarrow>
                      if isNetworkError message \<and> attempt < maxRetries then
                        (let prefix = AttemptPrefix attempt maxRetries;
                             a5 = [ConsoleLog (NetworkIssue prefix)]
                         in case waitForReconnect prefix st3 of
                              (False, st4, a6) \<Rightarrow> (Unsettled, st4, a1 @ a2 @ a3 @ a4 @ a5 @ a6)
                            | (True, st4, a6) \<Rightarrow>
                               (case fetch_loop_fs fs env sng cookies handler tempAudioPath (attempt + 1) st4 of
                                  (r, st5, a7) \<Rightarrow> (r, st5, a1 @ a2 @ a3 @ a4 @ a5 @ a6 @ a7)))
                      else (Rejected err, st3, a1 @ a2 @ a3 @ a4))))
      else (Resolved (), st, []))"
  by pat_completeness auto
termination
  by (relation "measure (\<lambda>(fs, env, sng, cookies, handler, tempAudioPath, attempt, st). Suc maxRetries - attempt)")
     auto

text \<open>
  The \<open>try\<close> block again. An error thrown inside the \<open>end\<close> listener is not passed to
  \<open>reject\<close>: the promise of the conversion never settles, and the error is an uncaught
  exception of the process.
\<close>

definition downloadSong_try_fs ::
  "fs_env \<Rightarrow> job_env \<Rightarrow> Song \<Rightarrow> jsstring \<Rightarrow> jsstring option \<Rightarrow> bool \<Rightarrow> jsstring \<Rightarrow> jsstring \<Rightarrow> job_state
     \<Rightarrow> DownloadResult promise \<times> job_state \<times> action list" where
  "downloadSong_try_fs fs env sng dir cookies handler outputPath tempAudioPath st =
     (case fetch_loop_fs fs env sng cookies handler tempAudioPath 1 st of
        (Unsettled, st1, a1) \<Rightarrow> (Unsettled, st1, a1)
      | (Rejected err, st1, a1) \<Rightarrow> (Rejected err, st1, a1)
      | (Resolved u, st1, a1) \<Rightarrow>
         (let a2 = call_onProgress handler
                     \<lparr>songId = song_id sng, title = song_title sng, status = Converting,
                      progress = 50, progress_error = None\<rparr>;
              a3 = [Ffmpeg tempAudioPath outputPath]
          in case transcode_outcome env of
               TranscodeEnd \<Rightarrow>
                 (case cleanup_temp_fs (unlink_on_end fs) tempAudioPath st1 of
                    (Some unlinkError, st2, a4) \<Rightarrow> (Unsettled, st2, a1 @ a2 @ a3 @ a4)
                  | (None, st2, a4) \<Rightarrow>
                    (let a5 = call_onProgress handler
                                \<lparr>songId = song_id sng, title = song_title sng, status = Completed,
                                 progress = 100, progress_error = None\<rparr>
                     in (Resolved \<lparr>song = sng, filePath = outputPath, success = True, error = None\<rparr>,
                         st2, a1 @ a2 @ a3 @ a4 @ a5)))
             | TranscodeError err \<Rightarrow> (Rejected err, st1, a1 @ a2 @ a3)))"

text \<open>
  \<open>downloadSong\<close> again. An error of \<open>unlinkSync\<close> in the outer \<open>catch\<close> leaves the
  function: the call rejects.
\<close>

definition downloadSong_fs ::
  "fs_env \<Rightarrow> Song \<Rightarrow> jsstring \<Rightarrow> jsstring option \<Rightarrow> bool \<Rightarrow> job_env
     \<Rightarrow> DownloadResult promise \<times> job_state \<times> action list" where
  "downloadSong_fs fs sng dir cookies handler env =
     (let sanitizedTitle = sanitizeFilename (artist sng @ js '' - '' @ song_title sng);
          outputPath = path_join dir (sanitizedTitle @ js ''.mp3'');
          tempAudioPath = path_join dir (sanitizedTitle @ js ''.webm'');
          st = \<lparr>probes = online_script env, temp_exists = temp_present env\<rparr>
      in case downloadSong_try_fs fs env sng dir cookies handler outputPath tempAudioPath st of
           (Rejected err, st1, a1) \<Rightarrow>
             (let errorMessage = message_of err in
              case cleanup_temp_fs (unlink_in_catch fs) tempAudioPath st1 of
                (Some unlinkError, st2, a2) \<Rightarrow> (Rejected unlinkError, st2, a1 @ a2)
              | (None, st2, a2) \<Rightarrow>
                (let a3 = call_onProgress handler
                            \<lparr>songId = song_id sng, title = song_title sng, status = Failed,
                             progress = 0, progress_error = Some errorMessage\<rparr>;
                     a4 = [LoggerError (song_title sng) errorMessage]
                 in (Resolved \<lparr>song = sng, filePath = [], success = False, error = Some errorMessage\<rparr>,
                     st2, a1 @ a2 @ a3 @ a4)))
         | other \<Rightarrow> other)"

definition unlink_never_throws :: "fs_env \<Rightarrow> bool" where
  "unlink_never_throws fs =
     ((\<forall>k. unlink_in_retry fs k = None) \<and> unlink_on_end fs = None \<and> unlink_in_catch fs = None)"

text \<open>
  What the retry policy makes of the outcomes of the fetch tool, from the given attempt
  with the given number of attempts left: the error that ends the job, or none when an
  attempt succeeds. And the result a job is to return, read from the outcomes of the
  fetch tool and of the transcoder alone.
\<close>

fun fetch_verdict :: "job_env \<Rightarrow> nat \<Rightarrow> nat \<Rightarrow> thrown option" where
  "fetch_verdict env attempt 0 = None"
| "fetch_verdict env attempt (Suc left) =
     (case fetch_outcome_at env attempt of
        FetchOk \<Rightarrow> None
      | FetchThrows e \<Rightarrow>
          if isNetworkError (message_of e) \<and> 0 < left then fetch_verdict env (Suc attempt) left
          else Some e)"

definition expected_result :: "Song \<Rightarrow> jsstring \<Rightarrow> job_env \<Rightarrow> DownloadResult" where
  "expected_result sng dir env =
     (case fetch_verdict env 1 maxRetries of
        Some e \<Rightarrow> \<lparr>song = sng, filePath = [], success = False, error = Some (message_of e)\<rparr>
      | None \<Rightarrow>
         (case transcode_outcome env of
            TranscodeEnd \<Rightarrow> \<lparr>song = sng, filePath = output_path dir sng, success = True, error = None\<rparr>
          | TranscodeError e \<Rightarrow>
              \<lparr>song = sng, filePath = [], success = False, error = Some (message_of e)\<rparr>))"


subsection \<open>Example inputs\<close>

text \<open>
  Two songs; a job whose first fetch times out and whose second fetch is refused; a job
  whose conversion fails; a job without connectivity; options and a batch world.
\<close>

definition song0 :: Song where
  "song0 = \<lparr>song_id = js ''a1'', song_title = js ''T'', artist = js ''A'', duration = 0,
             coverUrl = None, downloadUrl = None\<rparr>"


definition env_retry_then_fail :: job_env where
  "env_retry_then_fail =
     \<lparr>online_script = [True, True, True, True, True, True, True],
      fetch_outcome_at = (\<lambda>k. if k = 1 then FetchThrows (ErrorObj (js ''ETIMEDOUT''))
                               else FetchThrows (ErrorObj (js ''HTTP 403''))),
      temp_left_at = (\<lambda>k. False),
      transcode_outcome = TranscodeEnd,
      temp_present = False\<rparr>"

definition env_transcode_fails :: job_env where
  "env_transcode_fails =
     \<lparr>online_script = [True],
      fetch_outcome_at = (\<lambda>k. FetchOk),
      temp_left_at = (\<lambda>k. True),
      transcode_outcome = TranscodeError (ErrorObj (js ''ffmpeg'')),
      temp_present = False\<rparr>"

definition env_offline :: job_env where
  "env_offline =
     \<lparr>online_script = [False, False],
      fetch_outcome_at = (\<lambda>k. FetchOk),
      temp_left_at = (\<lambda>k. True),
      transcode_outcome = TranscodeEnd,
      temp_present = False\<rparr>"

definition options0 :: DownloadOptions where
  "options0 = \<lparr>outputDir = js ''out'', concurrency = None, quality = None, cookiesFile = None,
                onProgress = True\<rparr>"

definition batch_env0 :: batch_env where
  "batch_env0 = \<lparr>dir_exists = True, mkdir_outcome = None,
                  env_of_job = (\<lambda>i. env_retry_then_fail), finish_time = (\<lambda>i. 0)\<rparr>"

text \<open>A file system that refuses every removal, and a job whose only fetch is refused.\<close>

definition fs_cleanup_fails :: fs_env where
  "fs_cleanup_fails =
     \<lparr>unlink_in_retry = (\<lambda>k. Some (ErrorObj (js ''EBUSY''))),
      unlink_on_end = Some (ErrorObj (js ''EBUSY'')),
      unlink_in_catch = Some (ErrorObj (js ''EBUSY''))\<rparr>"

definition env_fetch_refused :: job_env where
  "env_fetch_refused =
     \<lparr>online_script = [True],
      fetch_outcome_at = (\<lambda>k. FetchThrows (ErrorObj (js ''HTTP 403''))),
      temp_left_at = (\<lambda>k. True),
      transcode_outcome = TranscodeEnd,
      temp_present = False\<rparr>"

declare fetch_loop.simps [simp del]

declare fetch_loop_fs.simps [simp del]

section \<open>Properties of sanitizeFilename\<close>

lemma has_ws_run_iff:
  "has_ws_run xs \<longleftrightarrow> (\<exists>i. Suc i < length xs \<and> is_ws (xs ! i) \<and> is_ws (xs ! Suc i))"
proof (induction xs rule: has_ws_run.induct)
  case (1 a b cs)
  show ?case
  proof
    assume "has_ws_run (a # b # cs)"
    then consider "is_ws a \<and> is_ws b" | "has_ws_run (b # cs)" by auto
    then show "\<exists>i. Suc i < length (a # b # cs) \<and> is_ws ((a # b # cs) ! i) \<and> is_ws ((a # b # cs) ! Suc i)"
    proof cases
      case 1
      then show ?thesis by (intro exI[of _ 0]) simp
    next
      case 2
      with "1.IH" obtain i where "Suc i < length (b # cs)" "is_ws ((b # cs) ! i)" "is_ws ((b # cs) ! Suc i)"
        by blast
      then show ?thesis by (intro exI[of _ "Suc i"]) simp
    qed
  next
    assume "\<exists>i. Suc i < length (a # b # cs) \<and> is_ws ((a # b # cs) ! i) \<and> is_ws ((a # b # cs) ! Suc i)"
    then obtain i where i: "Suc i < length (a # b # cs)" "is_ws ((a # b # cs) ! i)" "is_ws ((a # b # cs) ! Suc i)"
      by blast
    show "has_ws_run (a # b # cs)"
    proof (cases i)
      case 0
      with i show ?thesis by simp
    next
      case (Suc j)
      with i have "Suc j < length (b # cs) \<and> is_ws ((b # cs) ! j) \<and> is_ws ((b # cs) ! Suc j)" by simp
      with "1.IH" show ?thesis by auto
    qed
  qed
qed simp_all

lemma has_ws_run_take: "has_ws_run (take n xs) \<Longrightarrow> has_ws_run xs"
  unfolding has_ws_run_iff
proof (elim exE conjE)
  fix i assume a: "Suc i < length (take n xs)" "is_ws (take n xs ! i)" "is_ws (take n xs ! Suc i)"
  then have "Suc i < length xs" "Suc i < n" by simp_all
  moreover from this a have "is_ws (xs ! i)" "is_ws (xs ! Suc i)" by simp_all
  ultimately show "\<exists>i. Suc i < length xs \<and> is_ws (xs ! i) \<and> is_ws (xs ! Suc i)" by blast
qed

lemma has_ws_run_drop: "has_ws_run (drop n xs) \<Longrightarrow> has_ws_run xs"
  unfolding has_ws_run_iff
proof (elim exE conjE)
  fix i assume a: "Suc i < length (drop n xs)" "is_ws (drop n xs ! i)" "is_ws (drop n xs ! Suc i)"
  then have "Suc (n + i) < length xs" by simp
  moreover from a have "is_ws (xs ! (n + i))" "is_ws (xs ! Suc (n + i))" by simp_all
  ultimately show "\<exists>i. Suc i < length xs \<and> is_ws (xs ! i) \<and> is_ws (xs ! Suc i)" by blast
qed

lemma has_ws_run_dropWhile: "has_ws_run (dropWhile P xs) \<Longrightarrow> has_ws_run xs"
  using has_ws_run_drop [of "length (takeWhile P xs)" xs] by (simp add: dropWhile_eq_drop)

lemma has_ws_run_rev: "has_ws_run (rev xs) \<Longrightarrow> has_ws_run xs"
  unfolding has_ws_run_iff
proof (elim exE conjE)
  fix i assume a: "Suc i < length (rev xs)" "is_ws (rev xs ! i)" "is_ws (rev xs ! Suc i)"
  let ?j = "length xs - Suc (Suc i)"
  from a have "Suc ?j < length xs" by simp
  moreover from a have "is_ws (xs ! ?j)" by (simp add: rev_nth)
  moreover from a have "Suc ?j = length xs - Suc i" by simp
  with a have "is_ws (xs ! Suc ?j)" by (simp add: rev_nth)
  ultimately show "\<exists>i. Suc i < length xs \<and> is_ws (xs ! i) \<and> is_ws (xs ! Suc i)" by blast
qed

lemma has_ws_run_trim: "has_ws_run (trim xs) \<Longrightarrow> has_ws_run xs"
  unfolding trim_def by (blast dest: has_ws_run_rev has_ws_run_dropWhile)

lemma collapse_ws_head:
  "collapse_ws xs = y # ys \<Longrightarrow> is_ws y \<Longrightarrow> (\<exists>x xs'. xs = x # xs' \<and> is_ws x)"
  by (cases xs) (auto split: if_splits)

lemma dropWhile_head: "dropWhile P xs = x # xs' \<Longrightarrow> \<not> P x"
  using hd_dropWhile [of P xs] by auto

lemma collapse_ws_no_run: "\<not> has_ws_run (collapse_ws xs)"
proof (induction xs rule: collapse_ws.induct)
  case 1
  show ?case by simp
next
  case (2 c cs)
  show ?case
  proof (cases "is_ws c")
    case True
    with 2 have ih: "\<not> has_ws_run (collapse_ws (dropWhile is_ws cs))" by simp
    show ?thesis
    proof (cases "collapse_ws (dropWhile is_ws cs)")
      case Nil
      with True show ?thesis by simp
    next
      case (Cons y ys)
      have "\<not> is_ws y"
      proof
        assume "is_ws y"
        with Cons obtain x xs' where "dropWhile is_ws cs = x # xs'" "is_ws x"
          using collapse_ws_head by blast
        then show False using dropWhile_head by fastforce
      qed
      with True Cons ih show ?thesis by simp
    qed
  next
    case False
    with 2 have ih: "\<not> has_ws_run (collapse_ws cs)" by simp
    with False show ?thesis by (cases "collapse_ws cs") simp_all
  qed
qed

lemma set_dropWhile_subset: "set (dropWhile P xs) \<subseteq> set xs"
  by (auto dest: set_dropWhileD)

lemma set_collapse_ws: "set (collapse_ws xs) \<subseteq> insert 0x20 (set xs)"
proof (induction xs rule: collapse_ws.induct)
  case 1
  show ?case by simp
next
  case (2 c cs)
  have "set (dropWhile is_ws cs) \<subseteq> set cs" by (rule set_dropWhile_subset)
  with 2 show ?case by (cases "is_ws c") auto
qed

lemma set_trim: "set (trim xs) \<subseteq> set xs"
proof -
  have "set (trim xs) \<subseteq> set (dropWhile is_ws xs)"
    unfolding trim_def using set_dropWhile_subset [of is_ws "rev (dropWhile is_ws xs)"] by simp
  then show ?thesis using set_dropWhile_subset [of is_ws xs] by blast
qed

lemma space_legal: "(0x20 :: jschar) \<notin> set illegal_chars"
  by (simp add: illegal_chars_def)

text \<open>
  Claim C9. For every input string, the result of \<open>sanitizeFilename\<close> holds none of the
  characters \<open>/ \ ? % * : | " < >\<close>, holds no two adjacent whitespace characters, and
  is at most 200 code units long.
\<close>

theorem sanitizeFilename_safe:
  "set (sanitizeFilename s) \<inter> set illegal_chars = {}
   \<and> \<not> has_ws_run (sanitizeFilename s)
   \<and> length (sanitizeFilename s) \<le> 200"
proof (intro conjI)
  let ?f = "filter (\<lambda>c. c \<notin> set illegal_chars) s"
  have "set (sanitizeFilename s) \<subseteq> set (trim (collapse_ws ?f))"
    unfolding sanitizeFilename_def by (rule set_take_subset)
  also have "\<dots> \<subseteq> set (collapse_ws ?f)" by (rule set_trim)
  also have "\<dots> \<subseteq> insert 0x20 (set ?f)" by (rule set_collapse_ws)
  finally have "set (sanitizeFilename s) \<subseteq> insert 0x20 (set ?f)" .
  moreover have "set ?f \<inter> set illegal_chars = {}" by auto
  ultimately show "set (sanitizeFilename s) \<inter> set illegal_chars = {}"
    using space_legal by blast
next
  show "\<not> has_ws_run (sanitizeFilename s)"
    unfolding sanitizeFilename_def
    using collapse_ws_no_run has_ws_run_take has_ws_run_trim by blast
next
  show "length (sanitizeFilename s) \<le> 200"
    unfolding sanitizeFilename_def by simp
qed

section \<open>URL validation and playlist-id extraction\<close>

lemma rx_test_at_start: "rx_match ic r s \<noteq> [] \<Longrightarrow> rx_test ic r s"
  by (cases s) simp_all

lemma isValidYouTubeUrl_I:
  "i < length youtubePatterns \<Longrightarrow> rx_match True (youtubePatterns ! i) url \<noteq> [] \<Longrightarrow> isValidYouTubeUrl url"
  unfolding isValidYouTubeUrl_def list_ex_iff using rx_test_at_start nth_mem by blast

lemma watch_url_valid: "isValidYouTubeUrl (js ''https://www.youtube.com/watch?v=dQw4w9WgXcQ'')"
  by (rule isValidYouTubeUrl_I [of 1])
     (simp_all add: youtubePatterns_def scheme_opt_def js_def same_char_def canon_def)

lemma short_url_valid: "isValidYouTubeUrl (js ''https://youtu.be/dQw4w9WgXcQ'')"
  by (rule isValidYouTubeUrl_I [of 4])
     (simp_all add: youtubePatterns_def scheme_opt_def js_def same_char_def canon_def)

lemma watch_url_no_id: "extractPlaylistId (js ''https://www.youtube.com/watch?v=dQw4w9WgXcQ'') = None"
  by (simp add: js_def)

lemma short_url_no_id: "extractPlaylistId (js ''https://youtu.be/dQw4w9WgXcQ'') = None"
  by (simp add: js_def)

text \<open>
  Claim C10. There are URLs that \<open>isValidYouTubeUrl\<close> accepts and for which
  \<open>validateAndExtractId\<close> throws "Could not extract playlist ID": a watch link and a
  youtu.be link without a \<open>list=\<close> parameter.
\<close>

theorem valid_url_without_playlist_id:
  "isValidYouTubeUrl (js ''https://www.youtube.com/watch?v=dQw4w9WgXcQ'')
   \<and> validateAndExtractId (js ''https://www.youtube.com/watch?v=dQw4w9WgXcQ'')
       = Inl (ErrorObj (js ''Could not extract playlist ID from URL: ''
                        @ js ''https://www.youtube.com/watch?v=dQw4w9WgXcQ''))
   \<and> isValidYouTubeUrl (js ''https://youtu.be/dQw4w9WgXcQ'')
   \<and> validateAndExtractId (js ''https://youtu.be/dQw4w9WgXcQ'')
       = Inl (ErrorObj (js ''Could not extract playlist ID from URL: ''
                        @ js ''https://youtu.be/dQw4w9WgXcQ''))"
  unfolding validateAndExtractId_def
  by (simp only: watch_url_valid short_url_valid watch_url_no_id short_url_no_id
        not_True_eq_False if_False option.case simp_thms)

section \<open>Properties of the connectivity wait and of the retry loop\<close>

lemma fetch_attempts_simps [simp]:
  "fetch_attempts [] = 0"
  "fetch_attempts (xs @ ys) = fetch_attempts xs + fetch_attempts ys"
  "fetch_attempts (IsOnline b # xs) = fetch_attempts xs"
  "fetch_attempts (ConsoleLog m # xs) = fetch_attempts xs"
  "fetch_attempts (Delay n # xs) = fetch_attempts xs"
  "fetch_attempts (OnProgress p # xs) = fetch_attempts xs"
  "fetch_attempts (ExecSync i c t # xs) = Suc (fetch_attempts xs)"
  "fetch_attempts (UnlinkSync t # xs) = fetch_attempts xs"
  "fetch_attempts (Ffmpeg t u # xs) = fetch_attempts xs"
  "fetch_attempts (LoggerError t u # xs) = fetch_attempts xs"
  by (simp_all add: fetch_attempts_def)

lemma progress_events_simps [simp]:
  "progress_events [] = []"
  "progress_events (xs @ ys) = progress_events xs @ progress_events ys"
  "progress_events (IsOnline b # xs) = progress_events xs"
  "progress_events (ConsoleLog m # xs) = progress_events xs"
  "progress_events (Delay n # xs) = progress_events xs"
  "progress_events (OnProgress p # xs) = p # progress_events xs"
  "progress_events (ExecSync i c t # xs) = progress_events xs"
  "progress_events (UnlinkSync t # xs) = progress_events xs"
  "progress_events (Ffmpeg t u # xs) = progress_events xs"
  "progress_events (LoggerError t u # xs) = progress_events xs"
  by (simp_all add: progress_events_def)

lemma wait_loop_quiet:
  "waitForReconnect_loop p a ps = (r, rest, acts) \<Longrightarrow>
     fetch_attempts acts = 0 \<and> progress_events acts = []"
  by (induction p a ps arbitrary: r rest acts rule: waitForReconnect_loop.induct)
     (auto split: if_splits prod.splits)

lemma wait_loop_guard:
  "waitForReconnect_loop p a ps = (r, rest, acts) \<Longrightarrow>
     (\<exists>b'. foldl guard_step (Some b) acts = Some b') \<and> (r \<longrightarrow> foldl guard_step (Some b) acts = Some True)"
  by (induction p a ps arbitrary: r rest acts b rule: waitForReconnect_loop.induct)
     (auto split: if_splits prod.splits)

lemma wait_loop_returns:
  "True \<in> set ps \<Longrightarrow>
     \<exists>rest acts. waitForReconnect_loop p a ps = (True, rest, acts)
        \<and> count_list rest True = count_list ps True - 1"
  by (induction p a ps rule: waitForReconnect_loop.induct)
     (auto split: if_splits prod.splits)

lemma wait_loop_stuck:
  "True \<notin> set ps \<Longrightarrow> \<exists>acts. waitForReconnect_loop p a ps = (False, [], acts)"
  by (induction p a ps rule: waitForReconnect_loop.induct)
     (auto split: if_splits prod.splits)

lemma wait_quiet:
  "waitForReconnect p st = (r, st', acts) \<Longrightarrow>
     fetch_attempts acts = 0 \<and> progress_events acts = [] \<and> temp_exists st' = temp_exists st"
  unfolding waitForReconnect_def
  by (auto split: prod.splits dest: wait_loop_quiet)

lemma wait_guard:
  "waitForReconnect p st = (r, st', acts) \<Longrightarrow>
     (\<exists>b'. foldl guard_step (Some b) acts = Some b') \<and> (r \<longrightarrow> foldl guard_step (Some b) acts = Some True)"
  unfolding waitForReconnect_def
  using wait_loop_guard by (fastforce split: prod.splits)

lemma wait_returns:
  "0 < online_left st \<Longrightarrow>
     \<exists>st' acts. waitForReconnect p st = (True, st', acts) \<and> online_left st' = online_left st - 1"
proof -
  assume "0 < online_left st"
  then have "True \<in> set (probes st)"
    unfolding online_left_def using count_list_0_iff [of "probes st" True] by auto
  from wait_loop_returns [OF this, of p False]
  show ?thesis unfolding waitForReconnect_def online_left_def by auto
qed

lemma wait_stuck:
  "True \<notin> set (probes st) \<Longrightarrow> \<exists>st' acts. waitForReconnect p st = (False, st', acts)"
  using wait_loop_stuck [of "probes st" p False] unfolding waitForReconnect_def by auto

lemma guard_call_onProgress [simp]:
  "foldl guard_step (Some b) (call_onProgress h p) = Some b"
  by (simp add: call_onProgress_def)

lemma cleanup_temp_cases:
  "cleanup_temp t st = (st', acts) \<Longrightarrow>
     (acts = [] \<or> acts = [UnlinkSync t]) \<and> probes st' = probes st \<and> \<not> temp_exists st'"
  by (auto simp: cleanup_temp_def split: if_splits)

lemma guard_cleanup:
  "cleanup_temp t st = (st', acts) \<Longrightarrow> foldl guard_step (Some b) acts = Some b"
  by (auto dest: cleanup_temp_cases)

lemma fetch_loop_exit:
  "\<not> attempt \<le> maxRetries \<Longrightarrow> fetch_loop env sng ck h t attempt st = (Resolved (), st, [])"
  by (simp add: fetch_loop.simps)

lemma fetch_loop_stuck:
  "attempt \<le> maxRetries \<Longrightarrow> waitForReconnect NoPrefix st = (False, st1, a1)
     \<Longrightarrow> fetch_loop env sng ck h t attempt st = (Unsettled, st1, a1)"
  by (simp add: fetch_loop.simps)

lemma fetch_loop_ok:
  "attempt \<le> maxRetries \<Longrightarrow> waitForReconnect NoPrefix st = (True, st1, a1)
     \<Longrightarrow> fetch_outcome_at env attempt = FetchOk
     \<Longrightarrow> fetch_loop env sng ck h t attempt st
         = (Resolved (), st1\<lparr>temp_exists := temp_left_at env attempt\<rparr>, a1 @ attempt_acts h sng ck t)"
  by (simp add: fetch_loop.simps attempt_acts_def)

lemma fetch_loop_throw:
  "attempt \<le> maxRetries \<Longrightarrow> waitForReconnect NoPrefix st = (True, st1, a1)
     \<Longrightarrow> fetch_outcome_at env attempt = FetchThrows err
     \<Longrightarrow> cleanup_temp t (st1\<lparr>temp_exists := temp_left_at env attempt\<rparr>) = (st3, a4)
     \<Longrightarrow> \<not> (isNetworkError (message_of err) \<and> attempt < maxRetries)
     \<Longrightarrow> fetch_loop env sng ck h t attempt st
         = (Rejected err, st3, a1 @ attempt_acts h sng ck t @ a4)"
  by (auto simp: fetch_loop.simps [of env sng ck h t attempt] attempt_acts_def Let_def)

lemma fetch_loop_retry_stuck:
  "attempt \<le> maxRetries \<Longrightarrow> waitForReconnect NoPrefix st = (True, st1, a1)
     \<Longrightarrow> fetch_outcome_at env attempt = FetchThrows err
     \<Longrightarrow> cleanup_temp t (st1\<lparr>temp_exists := temp_left_at env attempt\<rparr>) = (st3, a4)
     \<Longrightarrow> isNetworkError (message_of err) \<Longrightarrow> attempt < maxRetries
     \<Longrightarrow> waitForReconnect (AttemptPrefix attempt maxRetries) st3 = (False, st4, a6)
     \<Longrightarrow> fetch_loop env sng ck h t attempt st
         = (Unsettled, st4, a1 @ attempt_acts h sng ck t @ a4
              @ [ConsoleLog (NetworkIssue (AttemptPrefix attempt maxRetries))] @ a6)"
  by (simp add: fetch_loop.simps [of env sng ck h t attempt] attempt_acts_def)

lemma fetch_loop_retry:
  "attempt \<le> maxRetries \<Longrightarrow> waitForReconnect NoPrefix st = (True, st1, a1)
     \<Longrightarrow> fetch_outcome_at env attempt = FetchThrows err
     \<Longrightarrow> cleanup_temp t (st1\<lparr>temp_exists := temp_left_at env attempt\<rparr>) = (st3, a4)
     \<Longrightarrow> isNetworkError (message_of err) \<Longrightarrow> attempt < maxRetries
     \<Longrightarrow> waitForReconnect (AttemptPrefix attempt maxRetries) st3 = (True, st4, a6)
     \<Longrightarrow> fetch_loop env sng ck h t (Suc attempt) st4 = (r, st5, a7)
     \<Longrightarrow> fetch_loop env sng ck h t attempt st
         = (r, st5, a1 @ attempt_acts h sng ck t @ a4
              @ [ConsoleLog (NetworkIssue (AttemptPrefix attempt maxRetries))] @ a6 @ a7)"
  by (simp add: fetch_loop.simps [of env sng ck h t attempt] attempt_acts_def)

text \<open>Induction over a run of the retry loop, one case for each way an attempt can go.\<close>

lemma fetch_loop_run_induct [consumes 1, case_names Exit Stuck Ok Throw RetryStuck Retry]:
  assumes run: "fetch_loop env sng ck h t attempt st = (r, st', acts)"
    and Exit: "\<And>attempt st. \<not> attempt \<le> maxRetries \<Longrightarrow> P attempt st (Resolved ()) st []"
    and Stuck: "\<And>attempt st st1 a1. attempt \<le> maxRetries
        \<Longrightarrow> waitForReconnect NoPrefix st = (False, st1, a1) \<Longrightarrow> P attempt st Unsettled st1 a1"
    and Ok: "\<And>attempt st st1 a1. attempt \<le> maxRetries
        \<Longrightarrow> waitForReconnect NoPrefix st = (True, st1, a1)
        \<Longrightarrow> fetch_outcome_at env attempt = FetchOk
        \<Longrightarrow> P attempt st (Resolved ()) (st1\<lparr>temp_exists := temp_left_at env attempt\<rparr>)
              (a1 @ attempt_acts h sng ck t)"
    and Throw: "\<And>attempt st st1 a1 err st3 a4. attempt \<le> maxRetries
        \<Longrightarrow> waitForReconnect NoPrefix st = (True, st1, a1)
        \<Longrightarrow> fetch_outcome_at env attempt = FetchThrows err
        \<Longrightarrow> cleanup_temp t (st1\<lparr>temp_exists := temp_left_at env attempt\<rparr>) = (st3, a4)
        \<Longrightarrow> \<not> (isNetworkError (message_of err) \<and> attempt < maxRetries)
        \<Longrightarrow> P attempt st (Rejected err) st3 (a1 @ attempt_acts h sng ck t @ a4)"
    and RetryStuck: "\<And>attempt st st1 a1 err st3 a4 st4 a6. attempt \<le> maxRetries
        \<Longrightarrow> waitForReconnect NoPrefix st = (True, st1, a1)
        \<Longrightarrow> fetch_outcome_at env attempt = FetchThrows err
        \<Longrightarrow> cleanup_temp t (st1\<lparr>temp_exists := temp_left_at env attempt\<rparr>) = (st3, a4)
        \<Longrightarrow> isNetworkError (message_of err) \<Longrightarrow> attempt < maxRetries
        \<Longrightarrow> waitForReconnect (AttemptPrefix attempt maxRetries) st3 = (False, st4, a6)
        \<Longrightarrow> P attempt st Unsettled st4
              (a1 @ attempt_acts h sng ck t @ a4
                 @ [ConsoleLog (NetworkIssue (AttemptPrefix attempt maxRetries))] @ a6)"
    and Retry: "\<And>attempt st st1 a1 err st3 a4 st4 a6 r st5 a7. attempt \<le> maxRetries
        \<Longrightarrow> waitForReconnect NoPrefix st = (True, st1, a1)
        \<Longrightarrow> fetch_outcome_at env attempt = FetchThrows err
        \<Longrightarrow> cleanup_temp t (st1\<lparr>temp_exists := temp_left_at env attempt\<rparr>) = (st3, a4)
        \<Longrightarrow> isNetworkError (message_of err) \<Longrightarrow> attempt < maxRetries
        \<Longrightarrow> waitForReconnect (AttemptPrefix attempt maxRetries) st3 = (True, st4, a6)
        \<Longrightarrow> fetch_loop env sng ck h t (Suc attempt) st4 = (r, st5, a7)
        \<Longrightarrow> P (Suc attempt) st4 r st5 a7
        \<Longrightarrow> P attempt st r st5
              (a1 @ attempt_acts h sng ck t @ a4
                 @ [ConsoleLog (NetworkIssue (AttemptPrefix attempt maxRetries))] @ a6 @ a7)"
  shows "P attempt st r st' acts"
  using run
proof (induction k \<equiv> "Suc maxRetries - attempt" arbitrary: attempt st r st' acts)
  case 0
  then have "\<not> attempt \<le> maxRetries" by simp
  with "0.prems" Exit [of attempt st] show ?case by (simp add: fetch_loop_exit)
next
  case (Suc k)
  then have le: "attempt \<le> maxRetries" by simp
  obtain w st1 a1 where w1: "waitForReconnect NoPrefix st = (w, st1, a1)"
    by (cases "waitForReconnect NoPrefix st") auto
  show ?case
  proof (cases w)
    case False
    with le w1 Suc.prems Stuck [of attempt st st1 a1] show ?thesis
      by (simp add: fetch_loop_stuck)
  next
    case True
    with w1 have w1: "waitForReconnect NoPrefix st = (True, st1, a1)" by simp
    show ?thesis
    proof (cases "fetch_outcome_at env attempt")
      case FetchOk
      with le w1 Suc.prems Ok [of attempt st st1 a1] show ?thesis
        by (simp add: fetch_loop_ok)
    next
      case (FetchThrows err)
      obtain st3 a4 where c: "cleanup_temp t (st1\<lparr>temp_exists := temp_left_at env attempt\<rparr>) = (st3, a4)"
        by (cases "cleanup_temp t (st1\<lparr>temp_exists := temp_left_at env attempt\<rparr>)") auto
      show ?thesis
      proof (cases "isNetworkError (message_of err) \<and> attempt < maxRetries")
        case False
        from fetch_loop_throw [OF le w1 FetchThrows c False] Suc.prems
          Throw [OF le w1 FetchThrows c False]
        show ?thesis by simp
      next
        case retry: True
        then have net: "isNetworkError (message_of err)" and lt: "attempt < maxRetries" by simp_all
        obtain w' st4 a6 where w2: "waitForReconnect (AttemptPrefix attempt maxRetries) st3 = (w', st4, a6)"
          by (cases "waitForReconnect (AttemptPrefix attempt maxRetries) st3") auto
        show ?thesis
        proof (cases w')
          case False
          with w2 have w2: "waitForReconnect (AttemptPrefix attempt maxRetries) st3 = (False, st4, a6)"
            by simp
          from fetch_loop_retry_stuck [OF le w1 FetchThrows c net lt w2] Suc.prems
            RetryStuck [OF le w1 FetchThrows c net lt w2]
          show ?thesis by simp
        next
          case True
          with w2 have w2: "waitForReconnect (AttemptPrefix attempt maxRetries) st3 = (True, st4, a6)"
            by simp
          obtain r5 st5 a7 where rec: "fetch_loop env sng ck h t (Suc attempt) st4 = (r5, st5, a7)"
            by (cases "fetch_loop env sng ck h t (Suc attempt) st4") auto
          from Suc.hyps(2) have "k = Suc maxRetries - Suc attempt" by simp
          from Suc.hyps(1) [OF this rec] have ih: "P (Suc attempt) st4 r5 st5 a7" .
          from fetch_loop_retry [OF le w1 FetchThrows c net lt w2 rec] Suc.prems
            Retry [OF le w1 FetchThrows c net lt w2 rec ih]
          show ?thesis by simp
        qed
      qed
    qed
  qed
qed

lemma guard_attempt_acts [simp]:
  "foldl guard_step (Some True) (attempt_acts h sng ck t) = Some False"
  by (simp add: attempt_acts_def)

lemma fetch_loop_guard:
  "fetch_loop env sng ck h t attempt st = (r, st', acts)
     \<Longrightarrow> \<exists>b'. foldl guard_step (Some b) acts = Some b'"
proof (induction arbitrary: b rule: fetch_loop_run_induct)
  case (Exit attempt st)
  show ?case by simp
next
  case (Stuck attempt st st1 a1)
  with wait_guard show ?case by blast
next
  case (Ok attempt st st1 a1)
  with wait_guard [OF Ok(2), of b] show ?case by auto
next
  case (Throw attempt st st1 a1 err st3 a4)
  with wait_guard [OF Throw(2), of b] guard_cleanup [OF Throw(4)] show ?case by auto
next
  case (RetryStuck attempt st st1 a1 err st3 a4 st4 a6)
  with wait_guard [OF RetryStuck(2), of b] guard_cleanup [OF RetryStuck(4)]
    wait_guard [OF RetryStuck(7), of False]
  show ?case by auto
next
  case (Retry attempt st st1 a1 err st3 a4 st4 a6 r st5 a7)
  with wait_guard [OF Retry(2), of b] guard_cleanup [OF Retry(4)]
    wait_guard [OF Retry(7), of False] Retry(9) [of True]
  show ?case by auto
qed

lemma wait_loop_True_count:
  "waitForReconnect_loop p a ps = (True, rest, acts) \<Longrightarrow> Suc (count_list rest True) = count_list ps True"
  by (induction p a ps arbitrary: rest acts rule: waitForReconnect_loop.induct)
     (auto split: if_splits prod.splits)

lemma wait_loop_False_count:
  "waitForReconnect_loop p a ps = (False, rest, acts) \<Longrightarrow> count_list ps True = 0"
  by (induction p a ps arbitrary: rest acts rule: waitForReconnect_loop.induct)
     (auto split: if_splits prod.splits)

lemma wait_True_online:
  "waitForReconnect p st = (True, st', acts) \<Longrightarrow> Suc (online_left st') = online_left st"
  unfolding waitForReconnect_def online_left_def
  by (auto split: prod.splits dest: wait_loop_True_count)

lemma wait_False_online:
  "waitForReconnect p st = (False, st', acts) \<Longrightarrow> online_left st = 0"
  unfolding waitForReconnect_def online_left_def
  by (auto split: prod.splits dest: wait_loop_False_count)

lemma cleanup_online:
  "cleanup_temp t st = (st', acts) \<Longrightarrow> online_left st' = online_left st"
  by (auto simp: online_left_def dest: cleanup_temp_cases)

lemma cleanup_quiet:
  "cleanup_temp t st = (st', acts) \<Longrightarrow> fetch_attempts acts = 0 \<and> progress_events acts = []"
  by (auto dest: cleanup_temp_cases)

lemma online_left_temp [simp]: "online_left (st\<lparr>temp_exists := b\<rparr>) = online_left st"
  by (simp add: online_left_def)

lemma fetch_attempts_attempt_acts [simp]: "fetch_attempts (attempt_acts h sng ck t) = 1"
  by (simp add: attempt_acts_def call_onProgress_def)

lemma fetch_attempts_call_onProgress [simp]: "fetch_attempts (call_onProgress h p) = 0"
  by (simp add: call_onProgress_def)


text \<open>An error that leaves the retry loop was thrown by the fetch tool at some attempt.\<close>

lemma fetch_loop_rejected:
  "fetch_loop env sng ck h t attempt st = (r, st', acts) \<Longrightarrow> r = Rejected e
     \<Longrightarrow> \<exists>k. attempt \<le> k \<and> k \<le> maxRetries \<and> fetch_outcome_at env k = FetchThrows e"
proof (induction rule: fetch_loop_run_induct)
  case (Throw attempt st st1 a1 err st3 a4)
  then show ?case by auto
next
  case (Retry attempt st st1 a1 err st3 a4 st4 a6 r st5 a7)
  then obtain k where "Suc attempt \<le> k" "k \<le> maxRetries" "fetch_outcome_at env k = FetchThrows e"
    by blast
  then show ?case by (intro exI [of _ k]) simp
qed simp_all


text \<open>All progress events of the retry loop are "downloading" events with indicator 0.\<close>

lemma progress_attempt_acts:
  "p \<in> set (progress_events (attempt_acts h sng ck t)) \<Longrightarrow> progress p = 0 \<and> status p = Downloading"
  by (auto simp: attempt_acts_def call_onProgress_def split: if_splits)

lemma fetch_loop_progress:
  "fetch_loop env sng ck h t attempt st = (r, st', acts)
     \<Longrightarrow> p \<in> set (progress_events acts) \<Longrightarrow> progress p = 0 \<and> status p = Downloading"
proof (induction rule: fetch_loop_run_induct)
  case (Exit attempt st)
  then show ?case by simp
next
  case (Stuck attempt st st1 a1)
  with wait_quiet [OF Stuck(2)] show ?case by simp
next
  case (Ok attempt st st1 a1)
  with wait_quiet [OF Ok(2)] progress_attempt_acts show ?case by auto
next
  case (Throw attempt st st1 a1 err st3 a4)
  with wait_quiet [OF Throw(2)] cleanup_quiet [OF Throw(4)] progress_attempt_acts
  show ?case by auto
next
  case (RetryStuck attempt st st1 a1 err st3 a4 st4 a6)
  with wait_quiet [OF RetryStuck(2)] cleanup_quiet [OF RetryStuck(4)]
    wait_quiet [OF RetryStuck(7)] progress_attempt_acts
  show ?case by auto
next
  case (Retry attempt st st1 a1 err st3 a4 st4 a6 r st5 a7)
  with wait_quiet [OF Retry(2)] cleanup_quiet [OF Retry(4)]
    wait_quiet [OF Retry(7)] progress_attempt_acts
  show ?case by auto
qed


text \<open>The four ways a job can go.\<close>

lemma downloadSong_cases [consumes 1, case_names Waiting FetchFailed TranscodeFailed Success]:
  assumes run: "downloadSong sng dir ck h env = (r, st', acts)"
  obtains
    (Waiting) "fetch_loop env sng ck h (temp_path dir sng) 1 (start_state env) = (Unsettled, st', acts)"
      "r = Unsettled"
  | (FetchFailed) e st1 a1 a2 where
      "fetch_loop env sng ck h (temp_path dir sng) 1 (start_state env) = (Rejected e, st1, a1)"
      "cleanup_temp (temp_path dir sng) st1 = (st', a2)"
      "r = Resolved (failure_result sng e)"
      "acts = a1 @ a2 @ failure_acts h sng e"
  | (TranscodeFailed) e st1 a1 a2 where
      "fetch_loop env sng ck h (temp_path dir sng) 1 (start_state env) = (Resolved (), st1, a1)"
      "transcode_outcome env = TranscodeError e"
      "cleanup_temp (temp_path dir sng) st1 = (st', a2)"
      "r = Resolved (failure_result sng e)"
      "acts = a1 @ converting_acts h sng dir @ a2 @ failure_acts h sng e"
  | (Success) st1 a1 a2 where
      "fetch_loop env sng ck h (temp_path dir sng) 1 (start_state env) = (Resolved (), st1, a1)"
      "transcode_outcome env = TranscodeEnd"
      "cleanup_temp (temp_path dir sng) st1 = (st', a2)"
      "r = Resolved \<lparr>song = sng, filePath = output_path dir sng, success = True, error = None\<rparr>"
      "acts = a1 @ converting_acts h sng dir @ a2 @ completed_acts h sng"
proof -
  obtain fr st1 a1 where f: "fetch_loop env sng ck h (temp_path dir sng) 1 (start_state env) = (fr, st1, a1)"
    by (cases "fetch_loop env sng ck h (temp_path dir sng) 1 (start_state env)") auto
  obtain st2 a2 where c: "cleanup_temp (temp_path dir sng) st1 = (st2, a2)"
    by (cases "cleanup_temp (temp_path dir sng) st1") auto
  show thesis
  proof (cases fr)
    case Unsettled
    with f run have "r = Unsettled" "st' = st1" "acts = a1"
      by (simp_all add: downloadSong_def downloadSong_try_def temp_path_def output_path_def
            start_state_def Let_def)
    with f Unsettled Waiting show thesis by simp
  next
    case (Rejected e)
    with f c run have "r = Resolved (failure_result sng e)" "st' = st2" "acts = a1 @ a2 @ failure_acts h sng e"
      by (simp_all add: downloadSong_def downloadSong_try_def temp_path_def output_path_def
            start_state_def Let_def failure_result_def failure_acts_def)
    with f c Rejected FetchFailed show thesis by simp
  next
    case (Resolved u)
    show thesis
    proof (cases "transcode_outcome env")
      case TranscodeEnd
      with f c run Resolved have "r = Resolved \<lparr>song = sng, filePath = output_path dir sng, success = True, error = None\<rparr>"
        "st' = st2" "acts = a1 @ converting_acts h sng dir @ a2 @ completed_acts h sng"
        by (simp_all add: downloadSong_def downloadSong_try_def temp_path_def output_path_def
              start_state_def Let_def converting_acts_def completed_acts_def)
      with f c Resolved TranscodeEnd Success show thesis by simp
    next
      case (TranscodeError e)
      with f c run Resolved have "r = Resolved (failure_result sng e)" "st' = st2"
        "acts = a1 @ converting_acts h sng dir @ a2 @ failure_acts h sng e"
        by (simp_all add: downloadSong_def downloadSong_try_def temp_path_def output_path_def
              start_state_def Let_def failure_result_def failure_acts_def converting_acts_def)
      with f c Resolved TranscodeError TranscodeFailed show thesis by simp
    qed
  qed
qed

section \<open>Properties of downloadSong\<close>

lemma start_enough:
  "7 \<le> count_list (online_script env) True
     \<Longrightarrow> 2 * (Suc maxRetries - 1) - 1 \<le> online_left (start_state env)"
  by (simp add: maxRetries_def online_left_def start_state_def)

lemma progress_failure_acts [simp]:
  "progress_events (failure_acts h sng e) =
     (if h then [\<lparr>songId = song_id sng, title = song_title sng, status = Failed,
                  progress = 0, progress_error = Some (message_of e)\<rparr>] else [])"
  by (simp add: failure_acts_def call_onProgress_def)

lemma fetch_attempts_tail_acts [simp]:
  "fetch_attempts (failure_acts h sng e) = 0"
  "fetch_attempts (converting_acts h sng dir) = 0"
  "fetch_attempts (completed_acts h sng) = 0"
  by (simp_all add: failure_acts_def converting_acts_def completed_acts_def)


lemma output_path_nonempty: "output_path dir sng \<noteq> []"
  by (simp add: output_path_def path_join_def js_def)




lemma console_msgs_simps [simp]:
  "console_msgs [] = []"
  "console_msgs (IsOnline b # xs) = console_msgs xs"
  "console_msgs (ConsoleLog m # xs) = m # console_msgs xs"
  "console_msgs (Delay n # xs) = console_msgs xs"
  by (simp_all add: console_msgs_def)

lemma failed_probes_simps [simp]:
  "failed_probes [] = 0"
  "failed_probes (IsOnline b # xs) = (if b then failed_probes xs else Suc (failed_probes xs))"
  "failed_probes (ConsoleLog m # xs) = failed_probes xs"
  "failed_probes (Delay n # xs) = failed_probes xs"
  by (simp_all add: failed_probes_def)

lemma wait_loop_messages:
  "waitForReconnect_loop p a ps = (r, rest, acts) \<Longrightarrow>
     console_msgs acts =
       (if a then replicate (failed_probes acts) (StillOffline p)
        else if failed_probes acts = 0 then []
        else NoInternet p # replicate (failed_probes acts - 1) (StillOffline p))
       @ (if r \<and> (a \<or> 0 < failed_probes acts) then [Reconnected p] else [])"
proof (induction p a ps arbitrary: r rest acts rule: waitForReconnect_loop.induct)
  case (1 logPrefix announced)
  then show ?case by simp
next
  case (2 logPrefix announced online rest0)
  show ?case
  proof (cases online)
    case True
    with "2.prems" show ?thesis by auto
  next
    case False
    obtain r' rest' acts' where rec: "waitForReconnect_loop logPrefix True rest0 = (r', rest', acts')"
      by (cases "waitForReconnect_loop logPrefix True rest0") auto
    from "2.IH" [OF False rec]
    have ih: "console_msgs acts' = replicate (failed_probes acts') (StillOffline logPrefix)
                @ (if r' then [Reconnected logPrefix] else [])" by simp
    from "2.prems" False rec
    have acts: "acts = IsOnline False
                 # ConsoleLog (if \<not> announced then NoInternet logPrefix else StillOffline logPrefix)
                 # Delay 5000 # acts'" and r: "r = r'" by simp_all
    show ?thesis unfolding acts r using ih by simp
  qed
qed

text \<open>
  Claim C7, as the code has it. One call of \<open>waitForReconnect\<close> prints the "No internet"
  notice at most once, on the first failed probe, and the "reconnected" notice at most
  once, when it returns after a failed probe; every later failed probe prints a
  "Still offline. Retrying in 5s..." message. With the failed probes counted, the
  messages are exactly these.
\<close>

theorem waitForReconnect_messages:
  "console_msgs (snd (snd (waitForReconnect p st))) =
     (if failed_probes (snd (snd (waitForReconnect p st))) = 0 then []
      else NoInternet p
           # replicate (failed_probes (snd (snd (waitForReconnect p st))) - 1) (StillOffline p)
           @ (if fst (waitForReconnect p st) then [Reconnected p] else []))"
proof -
  obtain r rest acts where loop: "waitForReconnect_loop p False (probes st) = (r, rest, acts)"
    by (cases "waitForReconnect_loop p False (probes st)") auto
  then have w: "waitForReconnect p st = (r, st\<lparr>probes := rest\<rparr>, acts)"
    by (simp add: waitForReconnect_def)
  from wait_loop_messages [OF loop] show ?thesis unfolding w by simp
qed

text \<open>
  Three failed probes, then a successful one: four messages, one for each failed probe
  and the notice of reconnection.
\<close>

theorem waitForReconnect_message_per_poll:
  "failed_probes (snd (snd (waitForReconnect NoPrefix \<lparr>probes = [False, False, False, True], temp_exists = False\<rparr>))) = 3
   \<and> console_msgs (snd (snd (waitForReconnect NoPrefix \<lparr>probes = [False, False, False, True], temp_exists = False\<rparr>)))
       = [NoInternet NoPrefix, StillOffline NoPrefix, StillOffline NoPrefix, Reconnected NoPrefix]"
  by (simp add: waitForReconnect_def)

lemma guard_tail_acts [simp]:
  "foldl guard_step (Some b) (failure_acts h sng e) = Some b"
  "foldl guard_step (Some b) (converting_acts h sng dir) = Some b"
  "foldl guard_step (Some b) (completed_acts h sng) = Some b"
  by (simp_all add: failure_acts_def converting_acts_def completed_acts_def)

text \<open>
  Claim C6. In every run of \<open>downloadSong\<close>, each run of the fetch tool comes after a
  connectivity probe that answered yes, with no other probe and no other run of the tool
  in between; and a job that finds no connectivity does not fail: it stays in the wait
  and never runs the tool.
\<close>

theorem fetch_only_after_successful_probe:
  "fetch_guarded (snd (snd (downloadSong sng dir ck h env)))
   \<and> (True \<notin> set (online_script env) \<longrightarrow>
        fst (downloadSong sng dir ck h env) = Unsettled
        \<and> fetch_attempts (snd (snd (downloadSong sng dir ck h env))) = 0)"
proof -
  obtain r st' acts where run: "downloadSong sng dir ck h env = (r, st', acts)"
    by (cases "downloadSong sng dir ck h env") auto
  from run have guarded: "fetch_guarded acts"
  proof (cases rule: downloadSong_cases)
    case Waiting
    from fetch_loop_guard [OF Waiting(1), of False] show ?thesis
      by (auto simp: fetch_guarded_def)
  next
    case (FetchFailed e st1 a1 a2)
    from fetch_loop_guard [OF FetchFailed(1), of False] guard_cleanup [OF FetchFailed(2)] FetchFailed(4)
    show ?thesis by (auto simp: fetch_guarded_def)
  next
    case (TranscodeFailed e st1 a1 a2)
    from fetch_loop_guard [OF TranscodeFailed(1), of False] guard_cleanup [OF TranscodeFailed(3)]
      TranscodeFailed(5)
    show ?thesis by (auto simp: fetch_guarded_def)
  next
    case (Success st1 a1 a2)
    from fetch_loop_guard [OF Success(1), of False] guard_cleanup [OF Success(3)] Success(5)
    show ?thesis by (auto simp: fetch_guarded_def)
  qed
  have offline: "r = Unsettled \<and> fetch_attempts acts = 0" if off: "True \<notin> set (online_script env)"
  proof -
    from off have "True \<notin> set (probes (start_state env))" by (simp add: start_state_def)
    from wait_stuck [OF this, of NoPrefix]
    obtain st1 a1 where w: "waitForReconnect NoPrefix (start_state env) = (False, st1, a1)" by blast
    have "1 \<le> maxRetries" by (simp add: maxRetries_def)
    from fetch_loop_stuck [OF this w]
    have f: "fetch_loop env sng ck h (temp_path dir sng) 1 (start_state env) = (Unsettled, st1, a1)" .
    from run show ?thesis
    proof (cases rule: downloadSong_cases)
      case Waiting
      with f wait_quiet [OF w] show ?thesis by simp
    qed (use f in simp_all)
  qed
  from guarded offline show ?thesis unfolding run by simp
qed

text \<open>
  A job that only sees failed probes stays in the wait and never runs the fetch tool.
\<close>

theorem fetch_only_after_successful_probe_witness:
  "fst (downloadSong song0 (js ''out'') None True env_offline) = Unsettled
   \<and> fetch_attempts (snd (snd (downloadSong song0 (js ''out'') None True env_offline))) = 0"
  using fetch_only_after_successful_probe [of song0 "js ''out''" None True env_offline]
  by (simp add: env_offline_def)


lemma milestones_simps [simp]:
  "milestones [] = []"
  "milestones (xs @ ys) = milestones xs @ milestones ys"
  "milestones (IsOnline b # xs) = milestones xs"
  "milestones (ConsoleLog m # xs) = milestones xs"
  "milestones (Delay n # xs) = milestones xs"
  "milestones (OnProgress p # xs) = Event (status p) (progress p) # milestones xs"
  "milestones (ExecSync i c t # xs) = FetchStart # milestones xs"
  "milestones (UnlinkSync t # xs) = milestones xs"
  "milestones (Ffmpeg t u # xs) = TranscodeStart # milestones xs"
  "milestones (LoggerError t u # xs) = milestones xs"
  by (simp_all add: milestones_def)

lemma transcode_started_simps [simp]:
  "transcode_started [] = False"
  "transcode_started (xs @ ys) = (transcode_started xs \<or> transcode_started ys)"
  "transcode_started (IsOnline b # xs) = transcode_started xs"
  "transcode_started (ConsoleLog m # xs) = transcode_started xs"
  "transcode_started (Delay n # xs) = transcode_started xs"
  "transcode_started (OnProgress p # xs) = transcode_started xs"
  "transcode_started (ExecSync i c t # xs) = transcode_started xs"
  "transcode_started (UnlinkSync t # xs) = transcode_started xs"
  "transcode_started (Ffmpeg t u # xs) = True"
  "transcode_started (LoggerError t u # xs) = transcode_started xs"
  by (simp_all add: transcode_started_def)





lemma attempt_acts_steps [simp]:
  "milestones (attempt_acts h sng ck t) = attempt_steps h"
  "\<not> transcode_started (attempt_acts h sng ck t)"
  by (simp_all add: attempt_acts_def call_onProgress_def attempt_steps_def)


lemma tail_acts_steps [simp]:
  "milestones (converting_acts h sng dir) = (if h then [Event Converting 50, TranscodeStart] else [TranscodeStart])"
  "milestones (completed_acts h sng) = (if h then [Event Completed 100] else [])"
  "milestones (failure_acts h sng e) = (if h then [Event Failed 0] else [])"
  "transcode_started (converting_acts h sng dir)"
  "\<not> transcode_started (completed_acts h sng)"
  "\<not> transcode_started (failure_acts h sng e)"
  by (simp_all add: converting_acts_def completed_acts_def failure_acts_def call_onProgress_def)

lemma indicators_simps [simp]:
  "indicators [] = []"
  "indicators (xs @ ys) = indicators xs @ indicators ys"
  "indicators (Event s n # ms) = n # indicators ms"
  "indicators (FetchStart # ms) = indicators ms"
  "indicators (TranscodeStart # ms) = indicators ms"
  by (simp_all add: indicators_def)







section \<open>Properties of downloadSongs\<close>











text \<open>
  Claim C3, as the code has it. \<open>downloadSongs\<close> has no check for an empty batch: with no
  items it queues nothing and returns the empty list of results, once the output
  directory is there and the queue is made.
\<close>

theorem downloadSongs_empty_batch:
  "dir_exists env \<or> mkdir_outcome env = None
     \<Longrightarrow> 1 \<le> (case concurrency options of None \<Rightarrow> 5 | Some n \<Rightarrow> n)
     \<Longrightarrow> downloadSongs [] options env = Resolved []"
  by (auto simp: downloadSongs_def Let_def)

text \<open>
  The empty batch with the default concurrency and the output directory in place.
\<close>

theorem downloadSongs_empty_batch_witness:
  "downloadSongs [] options0 batch_env0 = Resolved []"
  by (rule downloadSongs_empty_batch) (simp_all add: options0_def batch_env0_def)

text \<open>An empty batch, a concurrency of 2 and an output directory still to be made.\<close>

theorem empty_batch_is_not_rejected:
  "downloadSongs []
     \<lparr>outputDir = js ''out'', concurrency = Some 2, quality = None, cookiesFile = None,
      onProgress = False\<rparr>
     \<lparr>dir_exists = False, mkdir_outcome = None, env_of_job = (\<lambda>i. env_offline),
      finish_time = (\<lambda>i. i)\<rparr>
   = Resolved []"
  by (simp add: downloadSongs_def Let_def)

section \<open>downloadSong and a temporary file that cannot be removed\<close>

lemma cleanup_temp_fs_None:
  "cleanup_temp_fs None t st = (case cleanup_temp t st of (st', acts) \<Rightarrow> (None, st', acts))"
  by (simp add: cleanup_temp_fs_def cleanup_temp_def)

lemma fetch_loop_fs_eq:
  assumes "\<forall>k. unlink_in_retry fs k = None"
  shows "fetch_loop_fs fs env sng ck h t attempt st = fetch_loop env sng ck h t attempt st"
proof (induction k \<equiv> "Suc maxRetries - attempt" arbitrary: attempt st)
  case 0
  then have "\<not> attempt \<le> maxRetries" by simp
  then show ?case by (simp add: fetch_loop.simps fetch_loop_fs.simps)
next
  case (Suc k)
  then have ih: "\<And>st. fetch_loop_fs fs env sng ck h t (Suc attempt) st
                      = fetch_loop env sng ck h t (Suc attempt) st" by simp
  show ?case
    by (subst fetch_loop_fs.simps, subst fetch_loop.simps)
       (simp add: assms cleanup_temp_fs_None ih Let_def
          split: prod.splits fetch_outcome.splits bool.splits)
qed

lemma downloadSong_fs_eq:
  assumes "unlink_never_throws fs"
  shows "downloadSong_fs fs sng dir ck h env = downloadSong sng dir ck h env"
proof -
  from assms have r: "\<forall>k. unlink_in_retry fs k = None" and e: "unlink_on_end fs = None"
    and c: "unlink_in_catch fs = None" by (simp_all add: unlink_never_throws_def)
  have body: "downloadSong_try_fs fs env sng dir ck h out t st = downloadSong_try env sng dir ck h out t st"
    for out t st
    by (simp add: downloadSong_try_fs_def downloadSong_try_def fetch_loop_fs_eq [OF r] e
          cleanup_temp_fs_None Let_def
          split: prod.splits promise.splits transcode_outcome.splits)
  show ?thesis
    by (simp add: downloadSong_fs_def downloadSong_def body c cleanup_temp_fs_None Let_def
          split: prod.splits promise.splits)
qed

lemma fetch_loop_verdict:
  "fetch_loop env sng ck h t attempt st = (r, st', acts)
     \<Longrightarrow> 2 * (Suc maxRetries - attempt) - 1 \<le> online_left st
     \<Longrightarrow> r = (case fetch_verdict env attempt (Suc maxRetries - attempt) of
                None \<Rightarrow> Resolved () | Some e \<Rightarrow> Rejected e)"
proof (induction rule: fetch_loop_run_induct)
  case (Exit attempt st)
  then show ?case by simp
next
  case (Stuck attempt st st1 a1)
  from wait_False_online [OF Stuck(2)] Stuck(1,3) show ?case by simp
next
  case (Ok attempt st st1 a1)
  then show ?case by (simp add: Suc_diff_le)
next
  case (Throw attempt st st1 a1 err st3 a4)
  then show ?case by (auto simp: Suc_diff_le)
next
  case (RetryStuck attempt st st1 a1 err st3 a4 st4 a6)
  from wait_True_online [OF RetryStuck(2)] cleanup_online [OF RetryStuck(4)]
    wait_False_online [OF RetryStuck(7)] RetryStuck(6,8)
  show ?case by simp
next
  case (Retry attempt st st1 a1 err st3 a4 st4 a6 r st5 a7)
  from wait_True_online [OF Retry(2)] cleanup_online [OF Retry(4)]
    wait_True_online [OF Retry(7)] Retry(6,10)
  have "2 * (Suc maxRetries - Suc attempt) - 1 \<le> online_left st4" by simp
  from Retry(9) [OF this] Retry(1,3,5,6) show ?case by (simp add: Suc_diff_le)
qed

text \<open>
  When every removal succeeds and connectivity returns whenever the job waits for it,
  the call returns, and it returns the expected result: failed with the message of the
  error that ended the fetch or the conversion, successful with the output path
  otherwise.
\<close>

lemma downloadSong_outcome:
  assumes conn: "7 \<le> count_list (online_script env) True"
  shows "fst (downloadSong sng dir ck h env) = Resolved (expected_result sng dir env)"
proof -
  obtain r st' acts where run: "downloadSong sng dir ck h env = (r, st', acts)"
    by (cases "downloadSong sng dir ck h env") auto
  have v: "fr = (case fetch_verdict env 1 maxRetries of None \<Rightarrow> Resolved () | Some e \<Rightarrow> Rejected e)"
    if "fetch_loop env sng ck h (temp_path dir sng) 1 (start_state env) = (fr, st1, a1)" for fr st1 a1
    using fetch_loop_verdict [OF that start_enough [OF conn]] by simp
  from run have "r = Resolved (expected_result sng dir env)"
  proof (cases rule: downloadSong_cases)
    case Waiting
    from v [OF Waiting(1)] show ?thesis by (simp split: option.splits)
  next
    case (FetchFailed e st1 a1 a2)
    from v [OF FetchFailed(1)] FetchFailed(3) show ?thesis
      by (simp add: expected_result_def failure_result_def split: option.splits)
  next
    case (TranscodeFailed e st1 a1 a2)
    from v [OF TranscodeFailed(1)] TranscodeFailed(2,4) show ?thesis
      by (simp add: expected_result_def failure_result_def split: option.splits)
  next
    case (Success st1 a1 a2)
    from v [OF Success(1)] Success(2,4) show ?thesis
      by (simp add: expected_result_def split: option.splits)
  qed
  with run show ?thesis by simp
qed

lemma downloadSong_fs_outcome:
  "unlink_never_throws fs \<Longrightarrow> 7 \<le> count_list (online_script env) True
     \<Longrightarrow> fst (downloadSong_fs fs sng dir ck h env) = Resolved (expected_result sng dir env)"
  by (simp add: downloadSong_fs_eq downloadSong_outcome)

lemmas run_fs_eval = downloadSong_fs_def downloadSong_try_fs_def fetch_loop_fs.simps
  waitForReconnect_def call_onProgress_def cleanup_temp_fs_def maxRetries_def Let_def message_of_def

text \<open>
  Claim C4 says that \<open>downloadSong\<close> never rejects, whatever the fetch tool and the
  transcoder raise. It does reject when the removal of the temporary file throws in the
  \<open>catch\<close> block. Here every removal is refused with EBUSY and the fetch tool has left
  the temporary file behind: once the conversion fails, and once the fetch is refused
  with a 403, the call rejects with the error of \<open>unlinkSync\<close>.
\<close>

theorem downloadSong_rejects_when_cleanup_throws:
  "fst (downloadSong_fs fs_cleanup_fails song0 (js ''out'') None True env_transcode_fails)
     = Rejected (ErrorObj (js ''EBUSY''))
   \<and> fst (downloadSong_fs fs_cleanup_fails song0 (js ''out'') None True env_fetch_refused)
     = Rejected (ErrorObj (js ''EBUSY''))"
  by (simp add: run_fs_eval fs_cleanup_fails_def env_transcode_fails_def env_fetch_refused_def)

end
